theory Spec2Isabelle
  imports Main "HOL-Library.Word"
begin

section \<open>The tagged block writer of rmscene\<close>

text \<open>
  This theory embeds \<^verbatim>\<open>src/rmscene/tagged_block_writer.py\<close>: the class
  \<^verbatim>\<open>TaggedBlockWriter\<close>, its tagged-value writers and its two context managers
  \<^verbatim>\<open>write_block\<close> and \<^verbatim>\<open>write_subblock\<close>.

  The writer holds a reference \<^verbatim>\<open>self.data\<close> to the active \<^verbatim>\<open>DataStream\<close> and
  swaps that reference when a region is opened. References are modelled as addresses
  into a store of byte buffers, so that the identity of the active write target, and
  the contents of the targets that are not active, are part of the state.
\<close>

subsection \<open>Data\<close>

type_synonym byte = "8 word"

text \<open>The wire types named by the source: \<^verbatim>\<open>TagType.ID\<close>, \<^verbatim>\<open>Byte1\<close>, \<^verbatim>\<open>Byte4\<close>,
  \<^verbatim>\<open>Byte8\<close> and \<^verbatim>\<open>Length4\<close>.\<close>

datatype TagType = ID | Length4 | Byte8 | Byte4 | Byte1

text \<open>\<^verbatim>\<open>CrdtId\<close>, with the two fields \<^verbatim>\<open>write_id\<close> reads. Python integers are
  unbounded, hence \<^typ>\<open>int\<close>.\<close>

record CrdtId =
  part1 :: int
  part2 :: int

text \<open>
  The exceptions: \<^verbatim>\<open>UnexpectedBlockError\<close> with its message, the failure of the
  \<^verbatim>\<open>assert\<close> in \<^verbatim>\<open>write_block\<close>, a value rejected by a primitive encoder of
  \<^verbatim>\<open>DataStream\<close>, and an exception raised by the caller's own code inside a
  \<^verbatim>\<open>with\<close> body.
\<close>

datatype error =
    UnexpectedBlockError string
  | AssertionError
  | EncodingError
  | BodyError

text \<open>A Python \<^verbatim>\<open>float\<close>; its IEEE-754 packing is left to the parameters below.\<close>

typedecl pyfloat

type_synonym addr = nat

text \<open>
  The writer object. \<open>data\<close> is \<^verbatim>\<open>self.data\<close>, the address of the active stream;
  \<open>in_block\<close> is \<^verbatim>\<open>self._in_block\<close>; \<open>streams\<close> is the store, holding the bytes
  written so far to every stream that has been created. Address \<open>0\<close> is the stream
  given to \<^verbatim>\<open>__init__\<close>; \<^verbatim>\<open>BytesIO()\<close> allocates the next address. A stream is an
  in-memory byte sequence, as \<^verbatim>\<open>io.BytesIO\<close> is: appending to it does not fail. The
  caller's stream is modelled in the same way, so a failure of the output target
  itself is not among the errors below. A buffer stays in the store after its region
  has been closed; nothing refers to it any more.
\<close>

record TaggedBlockWriter =
  data :: addr
  in_block :: bool
  streams :: "byte list list"

text \<open>A call either returns or raises; in both cases the writer object lives on.\<close>

datatype outcome = Done TaggedBlockWriter | Raised error TaggedBlockWriter

fun state_of :: "outcome \<Rightarrow> TaggedBlockWriter" where
  "state_of (Done w) = w"
| "state_of (Raised e w) = w"

text \<open>Statement sequencing: the second statement runs only if the first returned.\<close>

fun seq :: "outcome \<Rightarrow> (TaggedBlockWriter \<Rightarrow> outcome) \<Rightarrow> outcome" where
  "seq (Done w) f = f w"
| "seq (Raised e w) f = Raised e w"

subsection \<open>The primitive stream writer\<close>

text \<open>
  \<^verbatim>\<open>DataStream\<close> is imported from \<^verbatim>\<open>tagged_block_common\<close>. The layout of a tag, of
  the file header and of the two float formats is taken as a parameter: \<open>tag_bytes\<close>
  gives the bytes of a tag, or \<open>None\<close> where the encoder rejects its arguments.
\<close>

record wire =
  tag_bytes :: "int \<Rightarrow> TagType \<Rightarrow> byte list option"
  float32_bytes :: "pyfloat \<Rightarrow> byte list option"
  float64_bytes :: "pyfloat \<Rightarrow> byte list option"
  header_bytes :: "byte list"

text \<open>Modelled from the spec: \<^verbatim>\<open>DataStream.write_uint8\<close>, a fixed-width unsigned
  integer of one byte; a value outside the range of the slot is rejected at the point
  of encoding.\<close>

definition uint8_bytes :: "int \<Rightarrow> byte list option" where
  "uint8_bytes v = (if 0 \<le> v \<and> v < 256 then Some [word_of_int v] else None)"

text \<open>Modelled from the spec: the four bytes of \<^verbatim>\<open>DataStream.write_uint32\<close>, a
  fixed-width unsigned integer in little-endian byte order.\<close>

definition uint32_le :: "int \<Rightarrow> byte list" where
  "uint32_le v =
     [word_of_int v, word_of_int (v div 256), word_of_int (v div 65536),
      word_of_int (v div 16777216)]"

text \<open>Modelled from the spec: \<^verbatim>\<open>DataStream.write_uint32\<close>; a negative value and a
  value that needs more than 32 bits are rejected at the point of encoding.\<close>

definition uint32_bytes :: "int \<Rightarrow> byte list option" where
  "uint32_bytes v = (if 0 \<le> v \<and> v < 4294967296 then Some (uint32_le v) else None)"

text \<open>Modelled from the spec: the bytes of \<^verbatim>\<open>DataStream.write_varuint\<close>, base 128
  with a continuation bit, least significant group first, no redundant byte.\<close>

function varuint :: "int \<Rightarrow> byte list" where
  "varuint v =
     (if v < 128 then [word_of_int v]
      else word_of_int (v mod 128 + 128) # varuint (v div 128))"
  by pat_completeness auto
termination
  by (relation "measure nat") auto

declare varuint.simps [simp del]

text \<open>Modelled from the spec: \<^verbatim>\<open>DataStream.write_varuint\<close>; a negative value is
  rejected.\<close>

definition varuint_bytes :: "int \<Rightarrow> byte list option" where
  "varuint_bytes v = (if v < 0 then None else Some (varuint v))"

text \<open>Modelled from the spec: \<^verbatim>\<open>DataStream.write_bool\<close>, a single byte, 0 or 1.\<close>

definition bool_bytes :: "bool \<Rightarrow> byte list option" where
  "bool_bytes b = Some [if b then 1 else 0]"

text \<open>The unsigned value of a little-endian byte sequence, to read a length field
  back.\<close>

fun le_value :: "byte list \<Rightarrow> int" where
  "le_value [] = 0"
| "le_value (b # bs) = uint b + 256 * le_value bs"

text \<open>The unsigned value of a base-128 byte sequence, least significant group first,
  to read a \<^verbatim>\<open>varuint\<close> back; the top bit of a byte is the continuation bit and
  carries no value.\<close>

fun varuint_value :: "byte list \<Rightarrow> int" where
  "varuint_value [] = 0"
| "varuint_value (b # bs) = uint b mod 128 + 128 * varuint_value bs"

text \<open>
  A primitive write on \<^verbatim>\<open>self.data\<close>: the value is encoded first, and the bytes are
  appended to the active stream only if the encoder accepted it; otherwise the call
  raises and nothing is written.
\<close>

fun emit :: "byte list option \<Rightarrow> TaggedBlockWriter \<Rightarrow> outcome" where
  "emit None w = Raised EncodingError w"
| "emit (Some bs) w = Done (w\<lparr>streams := (streams w)[data w := streams w ! data w @ bs]\<rparr>)"

definition DataStream_write_bytes :: "byte list \<Rightarrow> TaggedBlockWriter \<Rightarrow> outcome" where
  "DataStream_write_bytes bs = emit (Some bs)"

definition DataStream_write_header :: "wire \<Rightarrow> TaggedBlockWriter \<Rightarrow> outcome" where
  "DataStream_write_header P = emit (Some (header_bytes P))"

definition DataStream_write_tag :: "wire \<Rightarrow> int \<Rightarrow> TagType \<Rightarrow> TaggedBlockWriter \<Rightarrow> outcome" where
  "DataStream_write_tag P index t = emit (tag_bytes P index t)"

definition DataStream_write_uint8 :: "int \<Rightarrow> TaggedBlockWriter \<Rightarrow> outcome" where
  "DataStream_write_uint8 v = emit (uint8_bytes v)"

definition DataStream_write_uint32 :: "int \<Rightarrow> TaggedBlockWriter \<Rightarrow> outcome" where
  "DataStream_write_uint32 v = emit (uint32_bytes v)"

definition DataStream_write_varuint :: "int \<Rightarrow> TaggedBlockWriter \<Rightarrow> outcome" where
  "DataStream_write_varuint v = emit (varuint_bytes v)"

definition DataStream_write_bool :: "bool \<Rightarrow> TaggedBlockWriter \<Rightarrow> outcome" where
  "DataStream_write_bool b = emit (bool_bytes b)"

definition DataStream_write_float32 :: "wire \<Rightarrow> pyfloat \<Rightarrow> TaggedBlockWriter \<Rightarrow> outcome" where
  "DataStream_write_float32 P v = emit (float32_bytes P v)"

definition DataStream_write_float64 :: "wire \<Rightarrow> pyfloat \<Rightarrow> TaggedBlockWriter \<Rightarrow> outcome" where
  "DataStream_write_float64 P v = emit (float64_bytes P v)"

subsection \<open>The tagged block writer\<close>

text \<open>\<^verbatim>\<open>__init__\<close>: one stream, the caller's, holding what the caller had written to
  it; no block is open.\<close>

definition init :: "byte list \<Rightarrow> TaggedBlockWriter" where
  "init out = \<lparr>data = 0, in_block = False, streams = [out]\<rparr>"

definition write_header :: "wire \<Rightarrow> TaggedBlockWriter \<Rightarrow> outcome" where
  "write_header P w = DataStream_write_header P w"

definition write_id :: "wire \<Rightarrow> int \<Rightarrow> CrdtId \<Rightarrow> TaggedBlockWriter \<Rightarrow> outcome" where
  "write_id P index v w =
     seq (seq (DataStream_write_tag P index ID w)
              (DataStream_write_uint8 (part1 v)))
         (DataStream_write_varuint (part2 v))"

definition write_bool :: "wire \<Rightarrow> int \<Rightarrow> bool \<Rightarrow> TaggedBlockWriter \<Rightarrow> outcome" where
  "write_bool P index v w =
     seq (DataStream_write_tag P index Byte1 w) (DataStream_write_bool v)"

definition write_byte :: "wire \<Rightarrow> int \<Rightarrow> int \<Rightarrow> TaggedBlockWriter \<Rightarrow> outcome" where
  "write_byte P index v w =
     seq (DataStream_write_tag P index Byte1 w) (DataStream_write_uint8 v)"

definition write_int :: "wire \<Rightarrow> int \<Rightarrow> int \<Rightarrow> TaggedBlockWriter \<Rightarrow> outcome" where
  "write_int P index v w =
     seq (DataStream_write_tag P index Byte4 w) (DataStream_write_uint32 v)"

definition write_float :: "wire \<Rightarrow> int \<Rightarrow> pyfloat \<Rightarrow> TaggedBlockWriter \<Rightarrow> outcome" where
  "write_float P index v w =
     seq (DataStream_write_tag P index Byte4 w) (DataStream_write_float32 P v)"

definition write_double :: "wire \<Rightarrow> int \<Rightarrow> pyfloat \<Rightarrow> TaggedBlockWriter \<Rightarrow> outcome" where
  "write_double P index v w =
     seq (DataStream_write_tag P index Byte8 w) (DataStream_write_float64 P v)"

text \<open>
  \<^verbatim>\<open>write_block\<close> is a context manager: the code before \<^verbatim>\<open>yield\<close> runs on entry,
  the \<^verbatim>\<open>with\<close> body runs at the \<^verbatim>\<open>yield\<close>, the \<^verbatim>\<open>finally\<close> clause runs however
  the body ends, and the code after it only if the body returned. The body is the
  argument \<open>body\<close>. The locals \<^verbatim>\<open>previous_data\<close> and \<^verbatim>\<open>block_buf\<close> are the address
  held by \<^verbatim>\<open>self.data\<close> on entry and the address of the new buffer.

  \<open>open_block\<close> is the state in which the body starts: a new empty buffer has been
  allocated, \<^verbatim>\<open>self.data\<close> refers to it and \<^verbatim>\<open>self._in_block\<close> is set.
\<close>

definition open_block :: "TaggedBlockWriter \<Rightarrow> TaggedBlockWriter" where
  "open_block w = w\<lparr>streams := streams w @ [[]], data := length (streams w), in_block := True\<rparr>"

definition write_block ::
  "int \<Rightarrow> int \<Rightarrow> int \<Rightarrow> (TaggedBlockWriter \<Rightarrow> outcome) \<Rightarrow> TaggedBlockWriter \<Rightarrow> outcome" where
  "write_block block_type min_version current_version body w =
     (if in_block w then Raised (UnexpectedBlockError ''Already in a block'') w
      else
        let previous_data = data w;
            block_buf = length (streams w)
        in case body (open_block w) of
             Raised e w2 \<Rightarrow> Raised e (w2\<lparr>data := previous_data\<rparr>)
           | Done w2 \<Rightarrow>
               let w3 = w2\<lparr>data := previous_data\<rparr> in
               if \<not> in_block w3 then Raised AssertionError w3
               else
                 let w4 = w3\<lparr>in_block := False\<rparr> in
                 seq (seq (seq (seq (seq
                   (DataStream_write_uint32 (int (length (streams w4 ! block_buf))) w4)
                   (DataStream_write_uint8 0))
                   (DataStream_write_uint8 min_version))
                   (DataStream_write_uint8 current_version))
                   (DataStream_write_uint8 block_type))
                   (\<lambda>w5. DataStream_write_bytes (streams w5 ! block_buf) w5))"

text \<open>\<^verbatim>\<open>write_subblock\<close> has the same shape, without the flag and with a tag in place
  of the block header. \<open>open_subblock\<close> is the state in which its body starts.\<close>

definition open_subblock :: "TaggedBlockWriter \<Rightarrow> TaggedBlockWriter" where
  "open_subblock w = w\<lparr>streams := streams w @ [[]], data := length (streams w)\<rparr>"

definition write_subblock ::
  "wire \<Rightarrow> int \<Rightarrow> (TaggedBlockWriter \<Rightarrow> outcome) \<Rightarrow> TaggedBlockWriter \<Rightarrow> outcome" where
  "write_subblock P index body w =
     (let previous_data = data w;
          subblock_buf = length (streams w)
      in case body (open_subblock w) of
           Raised e w2 \<Rightarrow> Raised e (w2\<lparr>data := previous_data\<rparr>)
         | Done w2 \<Rightarrow>
             let w3 = w2\<lparr>data := previous_data\<rparr> in
             seq (seq
               (DataStream_write_tag P index Length4 w3)
               (\<lambda>w4. DataStream_write_uint32 (int (length (streams w4 ! subblock_buf))) w4))
               (\<lambda>w5. DataStream_write_bytes (streams w5 ! subblock_buf) w5))"

subsection \<open>Callers\<close>

text \<open>
  What a caller does with a writer: the tagged-value writes, a \<^verbatim>\<open>with\<close> statement
  on either context manager around further statements, an exception raised by the
  caller's own code, and a \<^verbatim>\<open>try\<close> around statements whose exception the caller
  catches before carrying on.
\<close>

datatype cmd =
    WriteId int CrdtId
  | WriteBool int bool
  | WriteByte int int
  | WriteInt int int
  | WriteFloat int pyfloat
  | WriteDouble int pyfloat
  | WithSubblock int "cmd list"
  | WithBlock int int int "cmd list"
  | RaiseError
  | TryExcept "cmd list"

fun exec :: "wire \<Rightarrow> cmd \<Rightarrow> TaggedBlockWriter \<Rightarrow> outcome"
  and run :: "wire \<Rightarrow> cmd list \<Rightarrow> TaggedBlockWriter \<Rightarrow> outcome" where
  "exec P (WriteId i v) w = write_id P i v w"
| "exec P (WriteBool i v) w = write_bool P i v w"
| "exec P (WriteByte i v) w = write_byte P i v w"
| "exec P (WriteInt i v) w = write_int P i v w"
| "exec P (WriteFloat i v) w = write_float P i v w"
| "exec P (WriteDouble i v) w = write_double P i v w"
| "exec P (WithSubblock i body) w = write_subblock P i (run P body) w"
| "exec P (WithBlock t mn cv body) w = write_block t mn cv (run P body) w"
| "exec P RaiseError w = Raised BodyError w"
| "exec P (TryExcept body) w = Done (state_of (run P body w))"
| "run P [] w = Done w"
| "run P (c # cs) w = seq (exec P c w) (run P cs)"

subsection \<open>Well-formed states and what a call may change\<close>

text \<open>A reference always refers to an object: the active address is allocated.\<close>

definition valid :: "TaggedBlockWriter \<Rightarrow> bool" where
  "valid w \<longleftrightarrow> data w < length (streams w)"

text \<open>
  \<open>extends w w'\<close>: from \<open>w\<close> to \<open>w'\<close> the active target is the same, no stream has
  disappeared, every stream of \<open>w\<close> other than the active one holds the same bytes,
  the active one has only grown at its end, and an open block is still open.
\<close>

definition extends :: "TaggedBlockWriter \<Rightarrow> TaggedBlockWriter \<Rightarrow> bool" where
  "extends w w' \<longleftrightarrow>
     data w' = data w \<and>
     length (streams w) \<le> length (streams w') \<and>
     (\<forall>a < length (streams w). a \<noteq> data w \<longrightarrow> streams w' ! a = streams w ! a) \<and>
     (\<exists>bs. streams w' ! data w = streams w ! data w @ bs) \<and>
     (in_block w \<longrightarrow> in_block w')"

subsection \<open>The byte layout of the format\<close>

text \<open>
  The layout table of the format, read as a function from the statements of a region
  body to the bytes they stand for: a tagged value is its tag followed by its encoded
  value, and a subblock is its tag, the four-byte length of its payload and the
  payload. It is defined without buffers or a store, for bodies made of tagged-value
  writes and subblocks whose every value the encoders accept; it is \<open>None\<close> otherwise.
\<close>

fun cat_opt :: "byte list option list \<Rightarrow> byte list option" where
  "cat_opt [] = Some []"
| "cat_opt (None # xs) = None"
| "cat_opt (Some b # xs) = (case cat_opt xs of None \<Rightarrow> None | Some bs \<Rightarrow> Some (b @ bs))"

fun spec_layout :: "wire \<Rightarrow> cmd \<Rightarrow> byte list option"
  and spec_layouts :: "wire \<Rightarrow> cmd list \<Rightarrow> byte list option" where
  "spec_layout P (WriteId i v) =
     cat_opt [tag_bytes P i ID, uint8_bytes (part1 v), varuint_bytes (part2 v)]"
| "spec_layout P (WriteBool i v) = cat_opt [tag_bytes P i Byte1, bool_bytes v]"
| "spec_layout P (WriteByte i v) = cat_opt [tag_bytes P i Byte1, uint8_bytes v]"
| "spec_layout P (WriteInt i v) = cat_opt [tag_bytes P i Byte4, uint32_bytes v]"
| "spec_layout P (WriteFloat i v) = cat_opt [tag_bytes P i Byte4, float32_bytes P v]"
| "spec_layout P (WriteDouble i v) = cat_opt [tag_bytes P i Byte8, float64_bytes P v]"
| "spec_layout P (WithSubblock i body) =
     (case spec_layouts P body of
        None \<Rightarrow> None
      | Some pl \<Rightarrow> cat_opt [tag_bytes P i Length4, uint32_bytes (int (length pl)), Some pl])"
| "spec_layout P (WithBlock t mn cv body) = None"
| "spec_layout P RaiseError = None"
| "spec_layout P (TryExcept body) = None"
| "spec_layouts P [] = Some []"
| "spec_layouts P (c # cs) =
     (case spec_layout P c of
        None \<Rightarrow> None
      | Some a \<Rightarrow> (case spec_layouts P cs of None \<Rightarrow> None | Some b \<Rightarrow> Some (a @ b)))"

subsection \<open>A tag layout for running the writer\<close>

text \<open>
  To run the writer on concrete inputs the parameters need values. \<open>sample_wire\<close> packs
  a tag into one byte, the index in the high bits and a code of the type in the low
  four, for the indices \<open>0\<close> to \<open>7\<close>; it has no header and accepts no float.
\<close>

fun sample_code :: "TagType \<Rightarrow> int" where
  "sample_code ID = 15"
| "sample_code Length4 = 12"
| "sample_code Byte8 = 8"
| "sample_code Byte4 = 4"
| "sample_code Byte1 = 1"

definition sample_tag :: "int \<Rightarrow> TagType \<Rightarrow> byte list option" where
  "sample_tag i t = (if 0 \<le> i \<and> i < 8 then Some [word_of_int (16 * i + sample_code t)] else None)"

definition sample_wire :: wire where
  "sample_wire =
     \<lparr>tag_bytes = sample_tag, float32_bytes = (\<lambda>x. None), float64_bytes = (\<lambda>x. None),
      header_bytes = []\<rparr>"

section \<open>Frame lemmas and the layout produced\<close>

subsection \<open>Frame properties of the primitive writes\<close>

lemma extends_refl: "extends w w"
  by (simp add: extends_def)

lemma extends_valid: "valid w \<Longrightarrow> extends w w' \<Longrightarrow> valid w'"
  by (simp add: extends_def valid_def)

lemma extends_trans:
  assumes "valid a" and ab: "extends a b" and bc: "extends b c"
  shows "extends a c"
proof -
  from ab bc have d: "data c = data a" "data b = data a"
    and len: "length (streams a) \<le> length (streams c)" "length (streams a) \<le> length (streams b)"
    and ib: "in_block a \<longrightarrow> in_block c"
    by (auto simp: extends_def)
  have other: "streams c ! x = streams a ! x" if "x < length (streams a)" "x \<noteq> data a" for x
    using that ab bc by (auto simp: extends_def)
  from ab obtain bs where 1: "streams b ! data a = streams a ! data a @ bs"
    by (auto simp: extends_def)
  from bc d obtain cs where 2: "streams c ! data a = streams b ! data a @ cs"
    by (auto simp: extends_def)
  from 1 2 have "streams c ! data a = streams a ! data a @ (bs @ cs)" by simp
  then have "\<exists>bs. streams c ! data a = streams a ! data a @ bs" ..
  with d len ib other show ?thesis
    by (simp add: extends_def)
qed

lemma emit_extends: "valid w \<Longrightarrow> extends w (state_of (emit x w))"
  by (cases x) (auto simp: extends_def valid_def)

lemma seq_extends:
  assumes "valid w" and r: "extends w (state_of r)"
    and f: "\<And>x. valid x \<Longrightarrow> extends x (state_of (f x))"
  shows "extends w (state_of (seq r f))"
proof (cases r)
  case (Done w1)
  with r have e: "extends w w1" by simp
  with \<open>valid w\<close> have "valid w1" by (rule extends_valid)
  then have "extends w1 (state_of (f w1))" by (rule f)
  with \<open>valid w\<close> e have "extends w (state_of (f w1))" by (rule extends_trans)
  with Done show ?thesis by simp
next
  case (Raised e w1)
  with r show ?thesis by simp
qed

lemma prim_extends:
  assumes "valid w"
  shows "extends w (state_of (DataStream_write_bytes bs w))"
    and "extends w (state_of (DataStream_write_header P w))"
    and "extends w (state_of (DataStream_write_tag P i t w))"
    and "extends w (state_of (DataStream_write_uint8 v w))"
    and "extends w (state_of (DataStream_write_uint32 v w))"
    and "extends w (state_of (DataStream_write_varuint v w))"
    and "extends w (state_of (DataStream_write_bool b w))"
    and "extends w (state_of (DataStream_write_float32 P x w))"
    and "extends w (state_of (DataStream_write_float64 P x w))"
  unfolding DataStream_write_bytes_def DataStream_write_header_def DataStream_write_tag_def
    DataStream_write_uint8_def DataStream_write_uint32_def DataStream_write_varuint_def
    DataStream_write_bool_def DataStream_write_float32_def DataStream_write_float64_def
  using assms by (rule emit_extends)+

lemma tagged_extends:
  assumes "valid w"
  shows "extends w (state_of (write_id P i c w))"
    and "extends w (state_of (write_bool P i b w))"
    and "extends w (state_of (write_byte P i v w))"
    and "extends w (state_of (write_int P i v w))"
    and "extends w (state_of (write_float P i x w))"
    and "extends w (state_of (write_double P i x w))"
  unfolding write_id_def write_bool_def write_byte_def write_int_def write_float_def
    write_double_def
  using assms by (simp_all add: seq_extends prim_extends)

subsection \<open>Frame properties of the regions\<close>

lemma valid_open: "valid (open_block w)" "valid (open_subblock w)"
  by (simp_all add: valid_def open_block_def open_subblock_def)

text \<open>While a region is open, every stream that existed when it was opened is out of
  reach of a body that only extends its own target.\<close>

lemma opened_keeps_old:
  assumes w1: "streams w1 = streams w @ [[]]" "data w1 = length (streams w)"
    and e: "extends w1 w2"
  shows "take (length (streams w)) (streams w2) = streams w"
proof (rule nth_equalityI)
  from e w1 have len: "length (streams w) < length (streams w2)"
    by (simp add: extends_def)
  then show "length (take (length (streams w)) (streams w2)) = length (streams w)"
    by simp
  fix a assume "a < length (take (length (streams w)) (streams w2))"
  with len have a: "a < length (streams w)" by simp
  with e w1 have "streams w2 ! a = streams w ! a"
    by (simp add: extends_def nth_append)
  with a show "take (length (streams w)) (streams w2) ! a = streams w ! a"
    by simp
qed

lemma opened_keeps_nth:
  assumes "take (length (streams w)) (streams w2) = streams w" and "a < length (streams w)"
  shows "streams w2 ! a = streams w ! a"
proof -
  from assms(2) have "take (length (streams w)) (streams w2) ! a = streams w2 ! a"
    by simp
  with assms(1) show ?thesis by simp
qed

lemma region_extends:
  assumes v: "valid w"
    and w1: "streams w1 = streams w @ [[]]" "data w1 = length (streams w)"
    and e: "extends w1 w2"
    and ib: "in_block w \<longrightarrow> in_block w3"
    and w3: "streams w3 = streams w2" "data w3 = data w"
  shows "extends w w3"
proof -
  have keep: "take (length (streams w)) (streams w2) = streams w"
    using w1 e by (rule opened_keeps_old)
  then have old: "streams w2 ! a = streams w ! a" if "a < length (streams w)" for a
    using that by (rule opened_keeps_nth)
  have len: "length (streams w) \<le> length (streams w2)"
    using e w1 by (simp add: extends_def)
  have "streams w3 ! data w = streams w ! data w @ []"
    using v old w3 by (simp add: valid_def)
  then have "\<exists>bs. streams w3 ! data w = streams w ! data w @ bs" ..
  with old len ib w3 show ?thesis
    by (simp add: extends_def)
qed

lemma write_subblock_extends:
  assumes v: "valid w" and body: "\<And>x. valid x \<Longrightarrow> extends x (state_of (body x))"
  shows "extends w (state_of (write_subblock P i body w))"
proof -
  let ?w1 = "open_subblock w"
  have s1: "streams ?w1 = streams w @ [[]]" "data ?w1 = length (streams w)"
    and i1: "in_block ?w1 = in_block w"
    by (simp_all add: open_subblock_def)
  have e1: "extends ?w1 (state_of (body ?w1))"
    by (rule body) (rule valid_open)
  show ?thesis
  proof (cases "body ?w1")
    case (Raised e w2)
    with e1 have e2: "extends ?w1 w2" by simp
    with i1 have "in_block w \<longrightarrow> in_block (w2\<lparr>data := data w\<rparr>)"
      by (simp add: extends_def)
    with v s1 e2 have "extends w (w2\<lparr>data := data w\<rparr>)"
      by (rule region_extends) simp_all
    with Raised show ?thesis by (simp add: write_subblock_def Let_def)
  next
    case (Done w2)
    let ?w3 = "w2\<lparr>data := data w\<rparr>"
    from Done e1 have e2: "extends ?w1 w2" by simp
    with i1 have "in_block w \<longrightarrow> in_block ?w3"
      by (simp add: extends_def)
    with v s1 e2 have e3: "extends w ?w3"
      by (rule region_extends) simp_all
    with v have v3: "valid ?w3" by (rule extends_valid)
    have "extends ?w3 (state_of (seq (seq
               (DataStream_write_tag P i Length4 ?w3)
               (\<lambda>w4. DataStream_write_uint32 (int (length (streams w4 ! length (streams w)))) w4))
               (\<lambda>w5. DataStream_write_bytes (streams w5 ! length (streams w)) w5)))"
      using v3 by (intro seq_extends prim_extends)
    with v e3 have "extends w (state_of (seq (seq
               (DataStream_write_tag P i Length4 ?w3)
               (\<lambda>w4. DataStream_write_uint32 (int (length (streams w4 ! length (streams w)))) w4))
               (\<lambda>w5. DataStream_write_bytes (streams w5 ! length (streams w)) w5)))"
      by (rule extends_trans)
    with Done show ?thesis by (simp add: write_subblock_def Let_def)
  qed
qed

lemma write_block_extends:
  assumes v: "valid w" and body: "\<And>x. valid x \<Longrightarrow> extends x (state_of (body x))"
  shows "extends w (state_of (write_block bt mn cv body w))"
proof (cases "in_block w")
  case True
  then show ?thesis by (simp add: write_block_def extends_refl)
next
  case idle: False
  let ?w1 = "open_block w"
  have s1: "streams ?w1 = streams w @ [[]]" "data ?w1 = length (streams w)"
    by (simp_all add: open_block_def)
  have e1: "extends ?w1 (state_of (body ?w1))"
    by (rule body) (rule valid_open)
  show ?thesis
  proof (cases "body ?w1")
    case (Raised e w2)
    with e1 have e2: "extends ?w1 w2" by simp
    from idle have "in_block w \<longrightarrow> in_block (w2\<lparr>data := data w\<rparr>)" by simp
    with v s1 e2 have "extends w (w2\<lparr>data := data w\<rparr>)"
      by (rule region_extends) simp_all
    with Raised idle show ?thesis by (simp add: write_block_def Let_def)
  next
    case (Done w2)
    let ?w3 = "w2\<lparr>data := data w\<rparr>"
    let ?w4 = "?w3\<lparr>in_block := False\<rparr>"
    from Done e1 have e2: "extends ?w1 w2" by simp
    from idle have i3: "in_block w \<longrightarrow> in_block ?w3" and i4: "in_block w \<longrightarrow> in_block ?w4"
      by simp_all
    from v s1 e2 i3 have e3: "extends w ?w3"
      by (rule region_extends) simp_all
    from v s1 e2 i4 have e4: "extends w ?w4"
      by (rule region_extends) simp_all
    with v have v4: "valid ?w4" by (rule extends_valid)
    have "extends ?w4 (state_of (seq (seq (seq (seq (seq
                   (DataStream_write_uint32 (int (length (streams ?w4 ! length (streams w)))) ?w4)
                   (DataStream_write_uint8 0))
                   (DataStream_write_uint8 mn))
                   (DataStream_write_uint8 cv))
                   (DataStream_write_uint8 bt))
                   (\<lambda>w5. DataStream_write_bytes (streams w5 ! length (streams w)) w5)))"
      using v4 by (intro seq_extends prim_extends)
    with v e4 have "extends w (state_of (seq (seq (seq (seq (seq
                   (DataStream_write_uint32 (int (length (streams ?w4 ! length (streams w)))) ?w4)
                   (DataStream_write_uint8 0))
                   (DataStream_write_uint8 mn))
                   (DataStream_write_uint8 cv))
                   (DataStream_write_uint8 bt))
                   (\<lambda>w5. DataStream_write_bytes (streams w5 ! length (streams w)) w5)))"
      by (rule extends_trans)
    with Done idle e3 show ?thesis by (simp add: write_block_def Let_def)
  qed
qed

text \<open>Every statement of a caller, and every sequence of them, extends the state it
  starts in: by induction on the nesting of the statements.\<close>

lemma exec_run_extends:
  "valid w \<Longrightarrow> extends w (state_of (exec P c w))"
  "valid w \<Longrightarrow> extends w (state_of (run P cs w))"
proof (induction P c w and P cs w rule: exec_run.induct)
  case (7 P i body w)
  then show ?case by (simp add: write_subblock_extends)
next
  case (8 P t mn cv body w)
  then show ?case by (simp add: write_block_extends)
next
  case (12 P c cs w)
  then show ?case by (simp add: seq_extends)
qed (simp_all add: tagged_extends extends_refl)


subsection \<open>The length field\<close>

lemma uint32_le_length: "length (uint32_le v) = 4"
  by (simp add: uint32_le_def)

lemma uint32_le_value:
  assumes "0 \<le> v" "v < 4294967296"
  shows "le_value (uint32_le v) = v"
proof -
  define a where "a = v div 256"
  define b where "b = a div 256"
  define c where "c = b div 256"
  have md: "x mod 256 + 256 * (x div 256) = x" for x :: int
    by simp
  have u: "uint (word_of_int x :: byte) = x mod 256" for x
    by (simp add: uint_word_of_int)
  have vb: "v div 65536 = b"
    unfolding b_def a_def by (simp add: zdiv_zmult2_eq [symmetric])
  have vc: "v div 16777216 = c"
    unfolding c_def b_def a_def by (simp add: zdiv_zmult2_eq [symmetric])
  from assms vc have c: "0 \<le> c" "c < 256" by simp_all
  then have cm: "c mod 256 = c" by simp
  have "le_value (uint32_le v) =
      v mod 256 + 256 * (a mod 256 + 256 * (b mod 256 + 256 * (c mod 256)))"
    by (simp add: uint32_le_def u vb vc a_def [symmetric])
  also have "\<dots> = v mod 256 + 256 * (a mod 256 + 256 * (b mod 256 + 256 * (b div 256)))"
    unfolding cm unfolding c_def ..
  also have "\<dots> = v mod 256 + 256 * (a mod 256 + 256 * b)"
    by (simp only: md)
  also have "\<dots> = v mod 256 + 256 * (a mod 256 + 256 * (a div 256))"
    by (simp only: b_def)
  also have "\<dots> = v mod 256 + 256 * a"
    by (simp only: md)
  also have "\<dots> = v"
    by (simp only: a_def md)
  finally show ?thesis .
qed

subsection \<open>Reading a byte and a varuint back\<close>

lemma uint8_value:
  assumes "0 \<le> v" "v < 256"
  shows "uint (word_of_int v :: byte) = v"
  using assms by (simp add: uint_word_of_int)

lemma varuint_roundtrip: "0 \<le> v \<Longrightarrow> varuint_value (varuint v) = v"
proof (induction v rule: varuint.induct)
  case (1 v)
  show ?case
  proof (cases "v < 128")
    case True
    with "1.prems" have "uint (word_of_int v :: byte) = v"
      by (simp add: uint_word_of_int)
    with True "1.prems" show ?thesis
      by (subst varuint.simps) simp
  next
    case False
    with "1.prems" have "0 \<le> v div 128" by simp
    with False "1.IH" have ih: "varuint_value (varuint (v div 128)) = v div 128" by simp
    have "0 \<le> v mod 128 + 128" "v mod 128 + 128 < 256" by simp_all
    then have "uint (word_of_int (v mod 128 + 128) :: byte) = v mod 128 + 128"
      by (rule uint8_value)
    then have "uint (word_of_int (v mod 128 + 128) :: byte) mod 128 = v mod 128"
      by simp
    with False ih show ?thesis
      by (subst varuint.simps) simp
  qed
qed

text \<open>Every byte but the last carries the continuation bit, the last does not.\<close>

lemma varuint_continuation:
  assumes "0 \<le> v"
  shows "(\<forall>b \<in> set (butlast (varuint v)). 128 \<le> uint b) \<and> uint (last (varuint v)) < 128
     \<and> varuint v \<noteq> []"
  using assms
proof (induction v rule: varuint.induct)
  case (1 v)
  show ?case
  proof (cases "v < 128")
    case True
    with "1.prems" have "uint (word_of_int v :: byte) = v"
      by (simp add: uint_word_of_int)
    with True show ?thesis
      by (subst (1 2 3) varuint.simps) simp
  next
    case False
    with "1.prems" have "0 \<le> v div 128" by simp
    with False "1.IH" have ih: "(\<forall>b \<in> set (butlast (varuint (v div 128))). 128 \<le> uint b)"
      "uint (last (varuint (v div 128))) < 128" "varuint (v div 128) \<noteq> []"
      by simp_all
    have "0 \<le> v mod 128 + 128" "v mod 128 + 128 < 256" by simp_all
    then have "uint (word_of_int (v mod 128 + 128) :: byte) = v mod 128 + 128"
      by (rule uint8_value)
    then have "128 \<le> uint (word_of_int (v mod 128 + 128) :: byte)" by simp
    with False ih show ?thesis
      by (subst (1 2 3) varuint.simps) simp
  qed
qed

subsection \<open>The state at the end of a region body\<close>

text \<open>What the body of a region, run from the opened state, leaves behind.\<close>

lemma body_in_block:
  assumes "run P cmds (open_block w) = r"
  shows "in_block (state_of r)"
    and "take (length (streams w)) (streams (state_of r)) = streams w"
    and "length (streams w) < length (streams (state_of r))"
    and "data (state_of r) = length (streams w)"
proof -
  have e: "extends (open_block w) (state_of r)"
    using exec_run_extends(2) [OF valid_open(1), of w P cmds] assms by simp
  have s1: "streams (open_block w) = streams w @ [[]]" "data (open_block w) = length (streams w)"
    by (simp_all add: open_block_def)
  from e show "in_block (state_of r)" by (simp add: extends_def open_block_def)
  from s1 e show "take (length (streams w)) (streams (state_of r)) = streams w"
    by (rule opened_keeps_old)
  from e s1 show "length (streams w) < length (streams (state_of r))"
    by (simp add: extends_def)
  from e s1 show "data (state_of r) = length (streams w)"
    by (simp add: extends_def)
qed

lemma body_in_subblock:
  assumes "run P cmds (open_subblock w) = r"
  shows "in_block w \<longrightarrow> in_block (state_of r)"
    and "take (length (streams w)) (streams (state_of r)) = streams w"
    and "length (streams w) < length (streams (state_of r))"
    and "data (state_of r) = length (streams w)"
proof -
  have e: "extends (open_subblock w) (state_of r)"
    using exec_run_extends(2) [OF valid_open(2), of w P cmds] assms by simp
  have s1: "streams (open_subblock w) = streams w @ [[]]"
      "data (open_subblock w) = length (streams w)"
    by (simp_all add: open_subblock_def)
  from e show "in_block w \<longrightarrow> in_block (state_of r)" by (simp add: extends_def open_subblock_def)
  from s1 e show "take (length (streams w)) (streams (state_of r)) = streams w"
    by (rule opened_keeps_old)
  from e s1 show "length (streams w) < length (streams (state_of r))"
    by (simp add: extends_def)
  from e s1 show "data (state_of r) = length (streams w)"
    by (simp add: extends_def)
qed

subsection \<open>Unfolding the writer on concrete inputs\<close>

lemmas run_defs =
  init_def valid_def open_block_def open_subblock_def write_block_def write_subblock_def
  write_id_def write_bool_def write_byte_def write_int_def write_float_def write_double_def
  DataStream_write_bytes_def DataStream_write_tag_def DataStream_write_uint8_def
  DataStream_write_uint32_def DataStream_write_varuint_def DataStream_write_bool_def
  DataStream_write_float32_def DataStream_write_float64_def
  uint8_bytes_def uint32_bytes_def uint32_le_def varuint_bytes_def bool_bytes_def
  sample_wire_def sample_tag_def Let_def


subsection \<open>Closing a block\<close>

lemma write_block_close:
  assumes v: "valid w" and idle: "\<not> in_block w"
    and body: "run P cmds (open_block w) = Done w2"
    and pl: "payload = streams w2 ! length (streams w)"
    and len: "length payload < 4294967296"
    and mn: "0 \<le> min_version" "min_version < 256"
    and cv: "0 \<le> current_version" "current_version < 256"
    and bt: "0 \<le> block_type" "block_type < 256"
  shows "write_block block_type min_version current_version (run P cmds) w =
           Done (w2\<lparr>data := data w, in_block := False,
                   streams := (streams w2)[data w := streams w ! data w
                      @ uint32_le (int (length payload))
                      @ [0, word_of_int min_version, word_of_int current_version,
                         word_of_int block_type]
                      @ payload]\<rparr>)"
proof -
  from body_in_block [OF body]
  have ib: "in_block w2" and keep: "take (length (streams w)) (streams w2) = streams w"
    and l2: "length (streams w) < length (streams w2)"
    by simp_all
  from v have d: "data w < length (streams w)" by (simp add: valid_def)
  from keep d have old: "streams w2 ! data w = streams w ! data w"
    by (rule opened_keeps_nth)
  from d l2 have d2: "data w < length (streams w2)" and ne: "data w \<noteq> length (streams w)"
    by simp_all
  show ?thesis
    using idle body ib old d2 ne len mn cv bt
    by (simp add: write_block_def Let_def DataStream_write_uint32_def DataStream_write_uint8_def
        DataStream_write_bytes_def uint32_bytes_def uint8_bytes_def pl [symmetric])
qed

subsection \<open>Closing a subblock\<close>

lemma write_subblock_close:
  assumes v: "valid w"
    and body: "run P cmds (open_subblock w) = Done w2"
    and pl: "payload = streams w2 ! length (streams w)"
    and len: "length payload < 4294967296"
    and tag: "tag_bytes P index Length4 = Some t"
  shows "write_subblock P index (run P cmds) w =
           Done (w2\<lparr>data := data w,
                   streams := (streams w2)[data w := streams w ! data w
                      @ t @ uint32_le (int (length payload)) @ payload]\<rparr>)"
proof -
  from body_in_subblock [OF body]
  have keep: "take (length (streams w)) (streams w2) = streams w"
    and l2: "length (streams w) < length (streams w2)"
    by simp_all
  from v have d: "data w < length (streams w)" by (simp add: valid_def)
  from keep d have old: "streams w2 ! data w = streams w ! data w"
    by (rule opened_keeps_nth)
  from d l2 have d2: "data w < length (streams w2)" and ne: "data w \<noteq> length (streams w)"
    by simp_all
  show ?thesis
    using body old d2 ne len tag
    by (simp add: write_subblock_def Let_def DataStream_write_uint32_def DataStream_write_tag_def
        DataStream_write_bytes_def uint32_bytes_def pl [symmetric])
qed


subsection \<open>Sequences of statements\<close>

lemma seq_assoc: "seq (seq r f) g = seq r (\<lambda>x. seq (f x) g)"
  by (cases r) simp_all

lemma run_append: "run P (xs @ ys) w = seq (run P xs w) (run P ys)"
proof (induction xs arbitrary: w)
  case Nil
  show ?case by simp
next
  case (Cons c xs)
  have "run P ((c # xs) @ ys) w = seq (exec P c w) (run P (xs @ ys))" by simp
  also have "run P (xs @ ys) = (\<lambda>x. seq (run P xs x) (run P ys))"
    using Cons.IH by (intro ext)
  also have "seq (exec P c w) (\<lambda>x. seq (run P xs x) (run P ys)) =
      seq (seq (exec P c w) (run P xs)) (run P ys)"
    by (simp add: seq_assoc)
  finally show ?case by simp
qed

lemma run_in_block:
  assumes "valid w" and "in_block w"
  shows "in_block (state_of (run P cs w))"
  using exec_run_extends(2) [OF assms(1), of P cs] assms(2) by (simp add: extends_def)

lemma run_valid:
  assumes "valid w"
  shows "valid (state_of (run P cs w))"
  using assms exec_run_extends(2) [OF assms, of P cs] by (rule extends_valid)

subsection \<open>A second block while one is open\<close>

lemma write_block_in_block:
  "in_block w \<Longrightarrow>
   write_block bt mn cv body w = Raised (UnexpectedBlockError ''Already in a block'') w"
  by (simp add: write_block_def)

lemma caught_block_in_block:
  "in_block w \<Longrightarrow> exec P (TryExcept [WithBlock bt mn cv inner]) w = Done w"
  by (simp add: write_block_in_block)

lemma run_skip_caught_block:
  assumes v: "valid w" and ib: "in_block w"
  shows "run P (pre @ TryExcept [WithBlock bt mn cv inner] # post) w = run P (pre @ post) w"
proof (cases "run P pre w")
  case (Done x)
  with run_in_block [OF v ib, of P pre] have "in_block x" by simp
  then have "exec P (TryExcept [WithBlock bt mn cv inner]) x = Done x"
    by (rule caught_block_in_block)
  with Done show ?thesis by (simp add: run_append)
next
  case (Raised e x)
  then show ?thesis by (simp add: run_append)
qed

subsection \<open>The target after a region\<close>

lemma emit_data: "data (state_of (emit x w)) = data w"
  by (cases x) simp_all

lemma seq_data:
  assumes "data (state_of r) = d" and "\<And>x. data (state_of (f x)) = data x"
  shows "data (state_of (seq r f)) = d"
  using assms by (cases r) simp_all

lemma prim_data:
  "data (state_of (DataStream_write_bytes bs w)) = data w"
  "data (state_of (DataStream_write_tag P i t w)) = data w"
  "data (state_of (DataStream_write_uint8 v w)) = data w"
  "data (state_of (DataStream_write_uint32 v w)) = data w"
  by (simp_all add: DataStream_write_bytes_def DataStream_write_tag_def
      DataStream_write_uint8_def DataStream_write_uint32_def emit_data)

lemma write_block_data: "data (state_of (write_block bt mn cv body w)) = data w"
proof (cases "in_block w")
  case True
  then show ?thesis by (simp add: write_block_def)
next
  case idle: False
  show ?thesis
  proof (cases "body (open_block w)")
    case (Raised e w2)
    with idle show ?thesis by (simp add: write_block_def)
  next
    case (Done w2)
    let ?w4 = "w2\<lparr>data := data w, in_block := False\<rparr>"
    have "data (state_of (seq (seq (seq (seq (seq
                   (DataStream_write_uint32 (int (length (streams ?w4 ! length (streams w)))) ?w4)
                   (DataStream_write_uint8 0))
                   (DataStream_write_uint8 mn))
                   (DataStream_write_uint8 cv))
                   (DataStream_write_uint8 bt))
                   (\<lambda>w5. DataStream_write_bytes (streams w5 ! length (streams w)) w5))) = data w"
      by (intro seq_data) (simp_all add: prim_data)
    with Done idle show ?thesis by (simp add: write_block_def Let_def)
  qed
qed

lemma write_subblock_data: "data (state_of (write_subblock P i body w)) = data w"
proof (cases "body (open_subblock w)")
  case (Raised e w2)
  then show ?thesis by (simp add: write_subblock_def)
next
  case (Done w2)
  let ?w3 = "w2\<lparr>data := data w\<rparr>"
  have "data (state_of (seq (seq
               (DataStream_write_tag P i Length4 ?w3)
               (\<lambda>w4. DataStream_write_uint32 (int (length (streams w4 ! length (streams w)))) w4))
               (\<lambda>w5. DataStream_write_bytes (streams w5 ! length (streams w)) w5))) = data w"
    by (intro seq_data) (simp_all add: prim_data)
  with Done show ?thesis by (simp add: write_subblock_def Let_def)
qed

lemma write_block_body_raised:
  "\<not> in_block w \<Longrightarrow> body (open_block w) = Raised e w2 \<Longrightarrow>
   write_block bt mn cv body w = Raised e (w2\<lparr>data := data w\<rparr>)"
  by (simp add: write_block_def)

lemma write_subblock_body_raised:
  "body (open_subblock w) = Raised e w2 \<Longrightarrow>
   write_subblock P i body w = Raised e (w2\<lparr>data := data w\<rparr>)"
  by (simp add: write_subblock_def)


subsection \<open>The writer produces the layout of the format\<close>

lemma cat_opt_two:
  "cat_opt [a, b] = Some bs \<longleftrightarrow> (\<exists>x y. a = Some x \<and> b = Some y \<and> bs = x @ y)"
  by (cases a; cases b) auto

lemma cat_opt_three:
  "cat_opt [a, b, c] = Some bs \<longleftrightarrow>
     (\<exists>x y z. a = Some x \<and> b = Some y \<and> c = Some z \<and> bs = x @ y @ z)"
  by (cases a; cases b; cases c) auto

lemma emit_two:
  assumes "valid w" and "cat_opt [a, b] = Some bs"
  shows "\<exists>w'. seq (emit a w) (emit b) = Done w' \<and>
           streams w' ! data w = streams w ! data w @ bs"
  using assms by (auto simp: cat_opt_two valid_def)

lemma emit_three:
  assumes "valid w" and "cat_opt [a, b, c] = Some bs"
  shows "\<exists>w'. seq (seq (emit a w) (emit b)) (emit c) = Done w' \<and>
           streams w' ! data w = streams w ! data w @ bs"
  using assms by (auto simp: cat_opt_three valid_def)

lemma tagged_spec_layout:
  assumes "valid w"
  shows "spec_layout P (WriteId i c) = Some bs \<Longrightarrow>
           \<exists>w'. write_id P i c w = Done w' \<and> streams w' ! data w = streams w ! data w @ bs"
    and "spec_layout P (WriteBool i b) = Some bs \<Longrightarrow>
           \<exists>w'. write_bool P i b w = Done w' \<and> streams w' ! data w = streams w ! data w @ bs"
    and "spec_layout P (WriteByte i v) = Some bs \<Longrightarrow>
           \<exists>w'. write_byte P i v w = Done w' \<and> streams w' ! data w = streams w ! data w @ bs"
    and "spec_layout P (WriteInt i v) = Some bs \<Longrightarrow>
           \<exists>w'. write_int P i v w = Done w' \<and> streams w' ! data w = streams w ! data w @ bs"
    and "spec_layout P (WriteFloat i x) = Some bs \<Longrightarrow>
           \<exists>w'. write_float P i x w = Done w' \<and> streams w' ! data w = streams w ! data w @ bs"
    and "spec_layout P (WriteDouble i x) = Some bs \<Longrightarrow>
           \<exists>w'. write_double P i x w = Done w' \<and> streams w' ! data w = streams w ! data w @ bs"
  unfolding write_id_def write_bool_def write_byte_def write_int_def write_float_def
    write_double_def DataStream_write_tag_def DataStream_write_uint8_def
    DataStream_write_uint32_def DataStream_write_varuint_def DataStream_write_bool_def
    DataStream_write_float32_def DataStream_write_float64_def spec_layout.simps
  using assms by (simp_all add: emit_two emit_three)

lemma subblock_spec_layout:
  assumes v: "valid w"
    and body: "\<And>x pl. valid x \<Longrightarrow> spec_layouts P cmds = Some pl \<Longrightarrow>
        \<exists>w'. run P cmds x = Done w' \<and> streams w' ! data x = streams x ! data x @ pl"
    and lay: "spec_layout P (WithSubblock i cmds) = Some bs"
  shows "\<exists>w'. write_subblock P i (run P cmds) w = Done w' \<and>
           streams w' ! data w = streams w ! data w @ bs"
proof -
  from lay obtain pl where pl: "spec_layouts P cmds = Some pl"
    and c: "cat_opt [tag_bytes P i Length4, uint32_bytes (int (length pl)), Some pl] = Some bs"
    by (auto split: option.splits)
  from c obtain t where t: "tag_bytes P i Length4 = Some t"
    and len: "length pl < 4294967296"
    and bs: "bs = t @ uint32_le (int (length pl)) @ pl"
    by (auto simp: cat_opt_three uint32_bytes_def split: if_splits)
  from body [OF valid_open(2) pl, of w] obtain w2
    where r: "run P cmds (open_subblock w) = Done w2"
      and "streams w2 ! data (open_subblock w) =
           streams (open_subblock w) ! data (open_subblock w) @ pl"
    by blast
  then have p: "pl = streams w2 ! length (streams w)"
    by (simp add: open_subblock_def)
  from body_in_subblock(3) [OF r] v have d2: "data w < length (streams w2)"
    by (simp add: valid_def)
  from write_subblock_close [OF v r p len t] d2 bs show ?thesis by simp
qed

lemma exec_run_spec_layout:
  "valid w \<Longrightarrow> spec_layout P c = Some bs \<Longrightarrow>
     \<exists>w'. exec P c w = Done w' \<and> streams w' ! data w = streams w ! data w @ bs"
  "valid w \<Longrightarrow> spec_layouts P cs = Some bs \<Longrightarrow>
     \<exists>w'. run P cs w = Done w' \<and> streams w' ! data w = streams w ! data w @ bs"
proof (induction P c w and P cs w arbitrary: bs and bs rule: exec_run.induct)
  case (7 P i body w)
  from "7.prems"(1) "7.IH" "7.prems"(2) show ?case
    unfolding exec.simps by (rule subblock_spec_layout)
next
  case (12 P c cs w)
  from "12.prems"(2) obtain a b where a: "spec_layout P c = Some a"
    and b: "spec_layouts P cs = Some b" and bs: "bs = a @ b"
    by (auto split: option.splits)
  from "12.IH"(1) [OF "12.prems"(1) a] obtain w1 where 1: "exec P c w = Done w1"
    and s1: "streams w1 ! data w = streams w ! data w @ a"
    by blast
  from exec_run_extends(1) [OF "12.prems"(1), of P c] 1 have e: "extends w w1" by simp
  with "12.prems"(1) have v1: "valid w1" by (rule extends_valid)
  from e have d1: "data w1 = data w" by (simp add: extends_def)
  from "12.IH"(2) [OF v1 b] obtain w2 where 2: "run P cs w1 = Done w2"
    and s2: "streams w2 ! data w1 = streams w1 ! data w1 @ b"
    by blast
  from 1 2 s1 s2 d1 bs show ?case by simp
qed (simp_all add: tagged_spec_layout)

lemma spec_layouts_append:
  "spec_layouts P xs = Some a \<Longrightarrow> spec_layouts P ys = Some b \<Longrightarrow>
   spec_layouts P (xs @ ys) = Some (a @ b)"
  by (induction xs arbitrary: a) (auto split: option.splits)


text \<open>A block around statements of the format: the length in its header counts the
  bytes the statements stand for, and those bytes follow the header.\<close>

lemma write_block_spec_layout:
  assumes v: "valid w" and idle: "\<not> in_block w"
    and lay: "spec_layouts P cmds = Some pl"
    and len: "length pl < 4294967296"
    and mn: "0 \<le> min_version" "min_version < 256"
    and cv: "0 \<le> current_version" "current_version < 256"
    and bt: "0 \<le> block_type" "block_type < 256"
  shows "\<exists>w'. write_block block_type min_version current_version (run P cmds) w = Done w' \<and>
           streams w' ! data w = streams w ! data w
              @ uint32_le (int (length pl))
              @ [0, word_of_int min_version, word_of_int current_version, word_of_int block_type]
              @ pl"
proof -
  from exec_run_spec_layout(2) [OF valid_open(1) lay, of w] obtain w2
    where r: "run P cmds (open_block w) = Done w2"
      and "streams w2 ! data (open_block w) =
           streams (open_block w) ! data (open_block w) @ pl"
    by blast
  then have p: "pl = streams w2 ! length (streams w)"
    by (simp add: open_block_def)
  from body_in_block(3) [OF r] v have d2: "data w < length (streams w2)"
    by (simp add: valid_def)
  from write_block_close [OF v idle r p len mn cv bt] d2 show ?thesis by simp
qed

subsection \<open>States a caller can reach\<close>

lemma init_valid: "valid (init out)"
  by (simp add: init_def valid_def)

lemma reachable_valid: "valid (state_of (run P cs (init out)))"
  using init_valid by (rule run_valid)
section \<open>The claims\<close>

subsection \<open>C1: the layout of a closed block\<close>

text \<open>
  C1. Let the body of \<^verbatim>\<open>write_block(block_type, min_version, current_version)\<close> be any
  sequence of caller statements that returns when run in the opened block, and let the
  three header values fit a byte and the payload length four bytes. Then the call
  returns, and what it has appended to the enclosing target is, in this order: the
  four-byte little-endian length, which reads back as exactly the number of bytes in the
  block buffer, one zero byte, \<^verbatim>\<open>min_version\<close>, \<^verbatim>\<open>current_version\<close>, \<^verbatim>\<open>block_type\<close>, and
  the bytes of the block buffer. The target is the enclosing one again and no block is
  open.
\<close>

theorem write_block_layout:
  assumes "valid w" and "\<not> in_block w"
    and "run P cmds (open_block w) = Done w2"
    and "payload = streams w2 ! length (streams w)"
    and "length payload < 4294967296"
    and "0 \<le> min_version" "min_version < 256"
    and "0 \<le> current_version" "current_version < 256"
    and "0 \<le> block_type" "block_type < 256"
  shows "write_block block_type min_version current_version (run P cmds) w =
           Done (w2\<lparr>data := data w, in_block := False,
                   streams := (streams w2)[data w := streams w ! data w
                      @ uint32_le (int (length payload))
                      @ [0, word_of_int min_version, word_of_int current_version,
                         word_of_int block_type]
                      @ payload]\<rparr>)
         \<and> length (uint32_le (int (length payload))) = 4
         \<and> le_value (uint32_le (int (length payload))) = int (length payload)"
proof -
  have "le_value (uint32_le (int (length payload))) = int (length payload)"
    using assms(5) by (intro uint32_le_value) simp_all
  with write_block_close [OF assms] show ?thesis
    by (simp add: uint32_le_length)
qed

text \<open>The record of the format's own example: an id, a bool and an int in a block of
  type 7 with versions 1 and 2.\<close>

theorem write_block_layout_witness:
  "valid (init []) \<and> \<not> in_block (init []) \<and>
   run sample_wire [WriteId 1 \<lparr>part1 = 3, part2 = 5\<rparr>, WriteBool 2 True, WriteInt 3 42]
     (open_block (init [])) =
     Done \<lparr>data = 1, in_block = True, streams = [[], [31, 3, 5, 33, 1, 52, 42, 0, 0, 0]]\<rparr> \<and>
   write_block 7 1 2
     (run sample_wire [WriteId 1 \<lparr>part1 = 3, part2 = 5\<rparr>, WriteBool 2 True, WriteInt 3 42])
     (init []) =
     Done \<lparr>data = 0, in_block = False,
        streams = [[10, 0, 0, 0, 0, 1, 2, 7, 31, 3, 5, 33, 1, 52, 42, 0, 0, 0],
                   [31, 3, 5, 33, 1, 52, 42, 0, 0, 0]]\<rparr>"
proof -
  have b: "run sample_wire [WriteId 1 \<lparr>part1 = 3, part2 = 5\<rparr>, WriteBool 2 True, WriteInt 3 42]
     (open_block (init [])) =
     Done \<lparr>data = 1, in_block = True, streams = [[], [31, 3, 5, 33, 1, 52, 42, 0, 0, 0]]\<rparr>"
    by (simp add: run_defs varuint.simps)
  have v: "valid (init [])" and i: "\<not> in_block (init [])"
    by (simp_all add: init_def valid_def)
  from write_block_layout [OF v i b, of "[31, 3, 5, 33, 1, 52, 42, 0, 0, 0]" 1 2 7] b v i
  show ?thesis
    by (simp add: init_def uint32_le_def)
qed

subsection \<open>C2: the layout of a closed subblock\<close>

text \<open>
  C2. Let the body of \<^verbatim>\<open>write_subblock(index)\<close> be any sequence of caller statements
  that returns when run in the opened subblock, let the tag of \<open>(index, Length4)\<close> be
  encodable and the payload length fit four bytes. Then the call returns, and it has
  appended to the target that was active when the subblock was opened, whichever that
  was: the tag, the four-byte little-endian length, which reads back as exactly the
  number of bytes in the subblock buffer, and the bytes of the subblock buffer. The
  target is that same one again.
\<close>

theorem write_subblock_layout:
  assumes "valid w"
    and "run P cmds (open_subblock w) = Done w2"
    and "payload = streams w2 ! length (streams w)"
    and "length payload < 4294967296"
    and "tag_bytes P index Length4 = Some t"
  shows "write_subblock P index (run P cmds) w =
           Done (w2\<lparr>data := data w,
                   streams := (streams w2)[data w := streams w ! data w
                      @ t @ uint32_le (int (length payload)) @ payload]\<rparr>)
         \<and> length (uint32_le (int (length payload))) = 4
         \<and> le_value (uint32_le (int (length payload))) = int (length payload)"
proof -
  have "le_value (uint32_le (int (length payload))) = int (length payload)"
    using assms(4) by (intro uint32_le_value) simp_all
  with write_subblock_close [OF assms] show ?thesis
    by (simp add: uint32_le_length)
qed

text \<open>A subblock opened inside an open block, whose buffer already holds two bytes: the
  header and the payload go to the block buffer, not to the caller's stream.\<close>

theorem write_subblock_layout_witness:
  "valid \<lparr>data = 1, in_block = True, streams = [[9], [17, 7]]\<rparr> \<and>
   run sample_wire [WriteInt 3 300, WriteByte 1 7]
     (open_subblock \<lparr>data = 1, in_block = True, streams = [[9], [17, 7]]\<rparr>) =
     Done \<lparr>data = 2, in_block = True, streams = [[9], [17, 7], [52, 44, 1, 0, 0, 17, 7]]\<rparr> \<and>
   tag_bytes sample_wire 2 Length4 = Some [44] \<and>
   write_subblock sample_wire 2 (run sample_wire [WriteInt 3 300, WriteByte 1 7])
     \<lparr>data = 1, in_block = True, streams = [[9], [17, 7]]\<rparr> =
     Done \<lparr>data = 1, in_block = True,
        streams = [[9], [17, 7, 44, 7, 0, 0, 0, 52, 44, 1, 0, 0, 17, 7],
                   [52, 44, 1, 0, 0, 17, 7]]\<rparr>"
proof -
  let ?w = "\<lparr>data = 1, in_block = True, streams = [[9 :: byte], [17, 7]]\<rparr>"
  have v: "valid ?w" by (simp add: valid_def)
  have b: "run sample_wire [WriteInt 3 300, WriteByte 1 7] (open_subblock ?w) =
     Done \<lparr>data = 2, in_block = True, streams = [[9], [17, 7], [52, 44, 1, 0, 0, 17, 7]]\<rparr>"
    by (simp add: run_defs)
  have t: "tag_bytes sample_wire 2 Length4 = Some [44]"
    by (simp add: sample_wire_def sample_tag_def)
  from write_subblock_layout [OF v b _ _ t, of "[52, 44, 1, 0, 0, 17, 7]"] v b t
  show ?thesis by (simp add: uint32_le_def)
qed

subsection \<open>C3: a subblock inside a subblock\<close>

text \<open>
  C3. Subblock A is opened; its body writes \<open>pre\<close>, then opens subblock B with the body
  \<open>bodyB\<close>, then writes \<open>post\<close>; they stand for the bytes \<open>X\<close>, \<open>payloadB\<close> and \<open>Y\<close> of the
  format. Then A returns, and what it has appended to its enclosing target is the header
  of A, then \<open>X\<close>, then the header of B, the payload of B and \<open>Y\<close>: the complete header
  and payload of B lie in one piece inside the payload of A, where B was opened, and the
  length in the header of A counts them. With \<open>pre\<close> empty the layout is the header of
  A, the header of B, the payload of B, the rest of the payload of A. Moreover, for any
  state \<open>x\<close> and any statements, run in a subblock opened from \<open>x\<close>, every stream of \<open>x\<close>,
  the buffers of the enclosing regions among them, holds at the end exactly the bytes it
  held when the subblock was opened.
\<close>

theorem nested_subblock_layout:
  assumes "valid w"
    and "spec_layouts P pre = Some X"
    and "spec_layouts P bodyB = Some payloadB"
    and "spec_layouts P post = Some Y"
    and "tag_bytes P a Length4 = Some tagA"
    and "tag_bytes P b Length4 = Some tagB"
    and "length payloadB < 4294967296"
    and "headerB = tagB @ uint32_le (int (length payloadB))"
    and "payloadA = X @ headerB @ payloadB @ Y"
    and "length payloadA < 4294967296"
    and "headerA = tagA @ uint32_le (int (length payloadA))"
  shows "(\<exists>w'. write_subblock P a (run P (pre @ WithSubblock b bodyB # post)) w = Done w' \<and>
            streams w' ! data w = streams w ! data w @ headerA @ X @ headerB @ payloadB @ Y) \<and>
         take (length (streams x)) (streams (state_of (run P cmds (open_subblock x)))) = streams x"
proof -
  have B: "spec_layout P (WithSubblock b bodyB) = Some (headerB @ payloadB)"
    using assms(3,6,7,8) by (simp add: uint32_bytes_def)
  with assms(4) have "spec_layouts P (WithSubblock b bodyB # post) = Some ((headerB @ payloadB) @ Y)"
    by simp
  with assms(2) have "spec_layouts P (pre @ WithSubblock b bodyB # post) =
      Some (X @ (headerB @ payloadB) @ Y)"
    by (rule spec_layouts_append)
  with assms(9) have "spec_layouts P (pre @ WithSubblock b bodyB # post) = Some payloadA"
    by simp
  with assms(5,10,11)
  have A: "spec_layout P (WithSubblock a (pre @ WithSubblock b bodyB # post)) =
      Some (headerA @ payloadA)"
    by (simp add: uint32_bytes_def)
  from exec_run_spec_layout(1) [OF assms(1) A] assms(9)
  have "\<exists>w'. write_subblock P a (run P (pre @ WithSubblock b bodyB # post)) w = Done w' \<and>
            streams w' ! data w = streams w ! data w @ headerA @ X @ headerB @ payloadB @ Y"
    by simp
  moreover have "take (length (streams x)) (streams (state_of (run P cmds (open_subblock x)))) =
      streams x"
    by (rule body_in_subblock(2)) (rule refl)
  ultimately show ?thesis ..
qed

text \<open>Subblock 1 holds a tagged byte, subblock 2 and a tagged bool; subblock 2 holds a
  tagged byte. The caller's stream held the byte 9.\<close>

theorem nested_subblock_layout_witness:
  "valid (init [9]) \<and>
   spec_layouts sample_wire [WriteByte 1 7] = Some [17, 7] \<and>
   spec_layouts sample_wire [WriteByte 2 5] = Some [33, 5] \<and>
   spec_layouts sample_wire [WriteBool 3 True] = Some [49, 1] \<and>
   tag_bytes sample_wire 1 Length4 = Some [28] \<and>
   tag_bytes sample_wire 2 Length4 = Some [44] \<and>
   streams (state_of (write_subblock sample_wire 1
       (run sample_wire ([WriteByte 1 7] @ WithSubblock 2 [WriteByte 2 5] # [WriteBool 3 True]))
       (init [9]))) ! 0 =
     [9] @ [28, 11, 0, 0, 0] @ [17, 7] @ [44, 2, 0, 0, 0] @ [33, 5] @ [49, 1] \<and>
   take 1 (streams (state_of (run sample_wire [WriteByte 2 5] (open_subblock (init [9]))))) =
     [[9]]"
proof -
  have v: "valid (init [9])" by (simp add: init_def valid_def)
  have x: "spec_layouts sample_wire [WriteByte 1 7] = Some [17, 7]"
    and p: "spec_layouts sample_wire [WriteByte 2 5] = Some [33, 5]"
    and y: "spec_layouts sample_wire [WriteBool 3 True] = Some [49, 1]"
    by (simp_all add: run_defs)
  have ta: "tag_bytes sample_wire 1 Length4 = Some [28]"
    and tb: "tag_bytes sample_wire 2 Length4 = Some [44]"
    by (simp_all add: sample_wire_def sample_tag_def)
  have hb: "[44, 2, 0, 0, 0] = [44] @ uint32_le (int (length [33 :: byte, 5]))"
    and ha: "[28, 11, 0, 0, 0] = [28] @ uint32_le (int (length
        ([17 :: byte, 7] @ [44, 2, 0, 0, 0] @ [33, 5] @ [49, 1])))"
    by (simp_all add: uint32_le_def)
  from nested_subblock_layout [OF v x p y ta tb _ hb refl _ ha, of "init [9]" "[WriteByte 2 5]"]
  have "(\<exists>w'. write_subblock sample_wire 1
          (run sample_wire ([WriteByte 1 7] @ WithSubblock 2 [WriteByte 2 5] # [WriteBool 3 True]))
          (init [9]) = Done w' \<and>
        streams w' ! data (init [9]) = streams (init [9]) ! data (init [9]) @
          [28, 11, 0, 0, 0] @ [17, 7] @ [44, 2, 0, 0, 0] @ [33, 5] @ [49, 1]) \<and>
      take (length (streams (init [9])))
        (streams (state_of (run sample_wire [WriteByte 2 5] (open_subblock (init [9]))))) =
      streams (init [9])"
    by simp
  moreover have "data (init [9]) = 0" "streams (init [9]) = [[9]]"
    by (simp_all add: init_def)
  ultimately show ?thesis using v x p y ta tb by auto
qed

subsection \<open>C4: a second top-level block\<close>

text \<open>
  C4. While a block is open, \<^verbatim>\<open>write_block\<close> raises \<^verbatim>\<open>UnexpectedBlockError\<close> at once,
  whatever its arguments and its body, and the writer is exactly as it was: the same
  active target, the same flag, the same bytes in every stream. The first block can
  still be closed: a block whose body, at any point, tries to open a second block and
  catches the error ends exactly as the block without that attempt does, header and
  payload included.
\<close>

theorem write_block_while_in_block:
  "(in_block w \<longrightarrow>
      write_block bt2 mn2 cv2 body w = Raised (UnexpectedBlockError ''Already in a block'') w) \<and>
   (\<not> in_block w \<longrightarrow>
      write_block bt mn cv (run P (pre @ TryExcept [WithBlock bt2 mn2 cv2 inner] # post)) w =
      write_block bt mn cv (run P (pre @ post)) w)"
proof -
  have "run P (pre @ TryExcept [WithBlock bt2 mn2 cv2 inner] # post) (open_block w) =
      run P (pre @ post) (open_block w)"
    by (rule run_skip_caught_block) (rule valid_open, simp add: open_block_def)
  then show ?thesis
    by (simp add: write_block_def)
qed

text \<open>Inside a block of type 7, after one byte has been written, the caller tries to
  open a block of type 8, catches the error and writes a second byte.\<close>

theorem write_block_while_in_block_witness:
  "in_block (state_of (run sample_wire [WriteByte 1 7] (open_block (init [])))) \<and>
   write_block 8 1 1 (run sample_wire [WriteByte 2 5])
     (state_of (run sample_wire [WriteByte 1 7] (open_block (init [])))) =
     Raised (UnexpectedBlockError ''Already in a block'')
       \<lparr>data = 1, in_block = True, streams = [[], [17, 7]]\<rparr> \<and>
   \<not> in_block (init []) \<and>
   write_block 7 1 2
     (run sample_wire [WriteByte 1 7, TryExcept [WithBlock 8 1 1 [WriteByte 2 5]], WriteByte 3 9])
     (init []) =
     Done \<lparr>data = 0, in_block = False,
        streams = [[4, 0, 0, 0, 0, 1, 2, 7, 17, 7, 49, 9], [17, 7, 49, 9]]\<rparr>"
proof -
  let ?w = "state_of (run sample_wire [WriteByte 1 7] (open_block (init [])))"
  have w: "?w = \<lparr>data = 1, in_block = True, streams = [[], [17, 7]]\<rparr>"
    by (simp add: run_defs)
  have plain: "write_block 7 1 2 (run sample_wire ([WriteByte 1 7] @ [WriteByte 3 9])) (init []) =
     Done \<lparr>data = 0, in_block = False,
        streams = [[4, 0, 0, 0, 0, 1, 2, 7, 17, 7, 49, 9], [17, 7, 49, 9]]\<rparr>"
    by (simp add: run_defs)
  from write_block_while_in_block [where w = ?w and ?bt2.0 = 8 and ?mn2.0 = 1 and ?cv2.0 = 1
        and body = "run sample_wire [WriteByte 2 5]"]
    write_block_while_in_block [where w = "init []" and bt = 7 and mn = 1 and cv = 2
        and P = sample_wire and pre = "[WriteByte 1 7]" and ?bt2.0 = 8 and ?mn2.0 = 1
        and ?cv2.0 = 1 and inner = "[WriteByte 2 5]" and post = "[WriteByte 3 9]"]
    w plain
  show ?thesis by (simp add: init_def)
qed

subsection \<open>C5: the active target after a region\<close>

text \<open>
  C5. Whatever the body of a region does, and however the region ends, \<^verbatim>\<open>self.data\<close>
  is the target that was active before \<^verbatim>\<open>write_block\<close> or \<^verbatim>\<open>write_subblock\<close> was
  called. In particular, when the body raises, the error leaves the region with the
  writer as the body left it, except that the target is the enclosing one again.
\<close>

theorem region_restores_target:
  "data (state_of (write_block bt mn cv body w)) = data w \<and>
   data (state_of (write_subblock P i body w)) = data w \<and>
   (\<not> in_block w \<and> body (open_block w) = Raised e w2 \<longrightarrow>
      write_block bt mn cv body w = Raised e (w2\<lparr>data := data w\<rparr>)) \<and>
   (body (open_subblock w) = Raised e w2 \<longrightarrow>
      write_subblock P i body w = Raised e (w2\<lparr>data := data w\<rparr>))"
  by (simp add: write_block_data write_subblock_data write_block_body_raised
      write_subblock_body_raised)

text \<open>A subblock inside a block; the body of the subblock writes a negative int, which
  the unsigned slot rejects. The error leaves both regions: after the subblock the target
  is the block buffer again, after the block it is the caller's stream.\<close>

theorem region_restores_target_witness:
  "\<not> in_block (init [9]) \<and>
   run sample_wire [WithSubblock 1 [WriteInt 3 (- 1)]] (open_block (init [9])) =
     Raised EncodingError \<lparr>data = 1, in_block = True, streams = [[9], [], [52]]\<rparr> \<and>
   write_block 7 1 2 (run sample_wire [WithSubblock 1 [WriteInt 3 (- 1)]]) (init [9]) =
     Raised EncodingError \<lparr>data = 0, in_block = True, streams = [[9], [], [52]]\<rparr> \<and>
   run sample_wire [WriteInt 3 (- 1)] (open_subblock (open_block (init [9]))) =
     Raised EncodingError \<lparr>data = 2, in_block = True, streams = [[9], [], [52]]\<rparr> \<and>
   write_subblock sample_wire 1 (run sample_wire [WriteInt 3 (- 1)]) (open_block (init [9])) =
     Raised EncodingError \<lparr>data = 1, in_block = True, streams = [[9], [], [52]]\<rparr>"
proof -
  have i: "\<not> in_block (init [9])" by (simp add: init_def)
  have b: "run sample_wire [WithSubblock 1 [WriteInt 3 (- 1)]] (open_block (init [9])) =
     Raised EncodingError \<lparr>data = 1, in_block = True, streams = [[9], [], [52]]\<rparr>"
    by (simp add: run_defs)
  have s: "run sample_wire [WriteInt 3 (- 1)] (open_subblock (open_block (init [9]))) =
     Raised EncodingError \<lparr>data = 2, in_block = True, streams = [[9], [], [52]]\<rparr>"
    by (simp add: run_defs)
  have d: "data (init [9]) = 0" "data (open_block (init [9])) = 1"
    by (simp_all add: init_def open_block_def)
  from region_restores_target [where w = "init [9]" and bt = 7 and mn = 1 and cv = 2
        and body = "run sample_wire [WithSubblock 1 [WriteInt 3 (- 1)]]" and e = EncodingError
        and ?w2.0 = "\<lparr>data = 1, in_block = True, streams = [[9], [], [52]]\<rparr>"]
    region_restores_target [where w = "open_block (init [9])" and P = sample_wire and i = 1
        and body = "run sample_wire [WriteInt 3 (- 1)]" and e = EncodingError
        and ?w2.0 = "\<lparr>data = 2, in_block = True, streams = [[9], [], [52]]\<rparr>"]
    i b s d
  show ?thesis by simp
qed

subsection \<open>C6: a tagged id\<close>

text \<open>
  C6. For an index whose tag of type \<open>ID\<close> is encodable and a \<^verbatim>\<open>CrdtId\<close> as the data
  model has it, the first part an unsigned byte and the second part not negative,
  \<^verbatim>\<open>write_id\<close> returns, and the only change to the writer is that the active stream
  has grown by the tag, then one byte, which reads back as the first part, then the
  base-128 encoding of the second part, which reads back as the second part and has the
  continuation bit on every byte but the last.
\<close>

theorem write_id_bytes:
  assumes "valid w"
    and "tag_bytes P index ID = Some t"
    and "0 \<le> part1 v" and "part1 v < 256"
    and "0 \<le> part2 v"
  shows "write_id P index v w =
           Done (w\<lparr>streams := (streams w)[data w := streams w ! data w
                     @ t @ [word_of_int (part1 v)] @ varuint (part2 v)]\<rparr>)
         \<and> uint (word_of_int (part1 v) :: byte) = part1 v
         \<and> varuint_value (varuint (part2 v)) = part2 v
         \<and> (\<forall>b \<in> set (butlast (varuint (part2 v))). 128 \<le> uint b)
         \<and> uint (last (varuint (part2 v))) < 128"
proof -
  have "write_id P index v w =
           Done (w\<lparr>streams := (streams w)[data w := streams w ! data w
                     @ t @ [word_of_int (part1 v)] @ varuint (part2 v)]\<rparr>)"
    using assms
    by (simp add: write_id_def DataStream_write_tag_def DataStream_write_uint8_def
        DataStream_write_varuint_def uint8_bytes_def varuint_bytes_def valid_def)
  with uint8_value [OF assms(3,4)] varuint_roundtrip [OF assms(5)]
    varuint_continuation [OF assms(5)]
  show ?thesis by simp
qed

text \<open>The id with parts 3 and 300 at index 1: a tag byte, the byte 3, and 300 in two
  groups of seven bits, the low group first, with the continuation bit set.\<close>

theorem write_id_bytes_witness:
  "valid (init [9]) \<and> tag_bytes sample_wire 1 ID = Some [31] \<and>
   write_id sample_wire 1 \<lparr>part1 = 3, part2 = 300\<rparr> (init [9]) =
     Done \<lparr>data = 0, in_block = False, streams = [[9, 31, 3, 172, 2]]\<rparr>"
proof -
  have v: "valid (init [9])" by (simp add: init_def valid_def)
  have t: "tag_bytes sample_wire 1 ID = Some [31]"
    by (simp add: sample_wire_def sample_tag_def)
  have u: "varuint 300 = [172, 2]"
    by (simp add: varuint.simps)
  from write_id_bytes [OF v t, of "\<lparr>part1 = 3, part2 = 300\<rparr>"] v t u
  show ?thesis by (simp add: init_def)
qed

subsection \<open>C7: a tagged int\<close>

text \<open>
  C7, as amended. For an index whose tag of type \<open>Byte4\<close> is encodable and an integer
  \<open>v\<close> with \<open>0 \<le> v < 2^32\<close>, \<^verbatim>\<open>write_int\<close> returns, and the only change to the writer
  is that the active stream has grown by the tag and then the four bytes of \<open>v\<close>, least
  significant first, which read back as \<open>v\<close>. The encoding is unsigned: the values from
  \<open>2^31\<close> on are written as they are, and for every other integer, the negative ones
  among them, the call raises after the tag and writes no byte for the value.
\<close>

theorem write_int_bytes:
  assumes "valid w"
    and "tag_bytes P index Byte4 = Some t"
  shows "(0 \<le> v \<and> v < 4294967296 \<longrightarrow>
            write_int P index v w =
              Done (w\<lparr>streams := (streams w)[data w := streams w ! data w @ t @ uint32_le v]\<rparr>) \<and>
            length (uint32_le v) = 4 \<and> le_value (uint32_le v) = v) \<and>
         (\<not> (0 \<le> v \<and> v < 4294967296) \<longrightarrow>
            write_int P index v w =
              Raised EncodingError (w\<lparr>streams := (streams w)[data w := streams w ! data w @ t]\<rparr>))"
  using assms
  by (simp add: write_int_def DataStream_write_tag_def DataStream_write_uint32_def
      uint32_bytes_def valid_def uint32_le_length uint32_le_value)

text \<open>The value \<open>2^31\<close>, which a signed four-byte slot cannot hold, is written; its top
  byte is \<open>128\<close>.\<close>

theorem write_int_bytes_witness:
  "valid (init []) \<and> tag_bytes sample_wire 3 Byte4 = Some [52] \<and>
   (0 :: int) \<le> 2147483648 \<and> (2147483648 :: int) < 4294967296 \<and>
   write_int sample_wire 3 2147483648 (init []) =
     Done \<lparr>data = 0, in_block = False, streams = [[52, 0, 0, 0, 128]]\<rparr> \<and>
   le_value [0, 0, 0, 128] = 2147483648"
proof -
  have v: "valid (init [])" by (simp add: init_def valid_def)
  have t: "tag_bytes sample_wire 3 Byte4 = Some [52]"
    by (simp add: sample_wire_def sample_tag_def)
  from write_int_bytes [OF v t, of 2147483648] v t
  show ?thesis by (simp add: init_def uint32_le_def)
qed

text \<open>The claim as it is written speaks of every integer. At \<open>-1\<close> the call raises:
  the tag has been written, and no four bytes follow it.\<close>

theorem write_int_negative_counterexample:
  "write_int sample_wire 3 (- 1) (init []) =
     Raised EncodingError \<lparr>data = 0, in_block = False, streams = [[52]]\<rparr>"
  by (simp add: run_defs)

subsection \<open>C8: a subblock outside any block\<close>

text \<open>
  C8. \<^verbatim>\<open>write_subblock\<close> does not look at \<^verbatim>\<open>self._in_block\<close>. On a writer with no
  block open and the caller's stream as its target, a subblock whose body returns,
  with an encodable tag and a payload length that fits four bytes, returns too, and
  the tag, the length and the payload have been appended to the caller's stream
  itself. Whatever the body, the only \<^verbatim>\<open>UnexpectedBlockError\<close> that can leave
  \<^verbatim>\<open>write_subblock\<close> is one its body raised.
\<close>

theorem write_subblock_idle:
  assumes "valid w" and "\<not> in_block w" and "data w = 0"
    and "run P cmds (open_subblock w) = Done w2"
    and "payload = streams w2 ! length (streams w)"
    and "length payload < 4294967296"
    and "tag_bytes P index Length4 = Some t"
  shows "write_subblock P index (run P cmds) w =
           Done (w2\<lparr>data := 0,
                   streams := (streams w2)[0 := streams w ! 0
                      @ t @ uint32_le (int (length payload)) @ payload]\<rparr>)
         \<and> (write_subblock P index body w = Raised (UnexpectedBlockError m) w3 \<longrightarrow>
              (\<exists>x. body (open_subblock w) = Raised (UnexpectedBlockError m) x))"
proof -
  have "write_subblock P index (run P cmds) w =
           Done (w2\<lparr>data := data w,
                   streams := (streams w2)[data w := streams w ! data w
                      @ t @ uint32_le (int (length payload)) @ payload]\<rparr>)"
    using assms(1,4-7) by (rule write_subblock_close)
  moreover have "\<exists>x. body (open_subblock w) = Raised (UnexpectedBlockError m) x"
    if r: "write_subblock P index body w = Raised (UnexpectedBlockError m) w3"
  proof (cases "body (open_subblock w)")
    case (Raised e x)
    with r show ?thesis by (simp add: write_subblock_def)
  next
    case (Done x)
    let ?w3 = "x\<lparr>data := data w\<rparr>"
    from r Done have f: "seq (seq
               (DataStream_write_tag P index Length4 ?w3)
               (\<lambda>w4. DataStream_write_uint32 (int (length (streams w4 ! length (streams w)))) w4))
               (\<lambda>w5. DataStream_write_bytes (streams w5 ! length (streams w)) w5) =
           Raised (UnexpectedBlockError m) w3"
      by (simp add: write_subblock_def Let_def)
    have False
    proof (cases "tag_bytes P index Length4")
      case None
      with f show False by (simp add: DataStream_write_tag_def)
    next
      case (Some tb)
      with f show False
        by (cases "uint32_bytes (int (length (streams
              (?w3\<lparr>streams := (streams ?w3)[data ?w3 := streams ?w3 ! data ?w3 @ tb]\<rparr>)
              ! length (streams w))))")
           (simp_all add: DataStream_write_tag_def DataStream_write_uint32_def
              DataStream_write_bytes_def)
    qed
    then show ?thesis ..
  qed
  ultimately show ?thesis using assms(3) by simp
qed

text \<open>A fresh writer on a stream that holds one byte; the subblock at index 2 holds one
  tagged byte.\<close>

theorem write_subblock_idle_witness:
  "valid (init [9]) \<and> \<not> in_block (init [9]) \<and> data (init [9]) = 0 \<and>
   run sample_wire [WriteByte 1 7] (open_subblock (init [9])) =
     Done \<lparr>data = 1, in_block = False, streams = [[9], [17, 7]]\<rparr> \<and>
   tag_bytes sample_wire 2 Length4 = Some [44] \<and>
   write_subblock sample_wire 2 (run sample_wire [WriteByte 1 7]) (init [9]) =
     Done \<lparr>data = 0, in_block = False, streams = [[9, 44, 2, 0, 0, 0, 17, 7], [17, 7]]\<rparr>"
proof -
  have v: "valid (init [9])" and i: "\<not> in_block (init [9])" and d: "data (init [9]) = 0"
    by (simp_all add: init_def valid_def)
  have b: "run sample_wire [WriteByte 1 7] (open_subblock (init [9])) =
     Done \<lparr>data = 1, in_block = False, streams = [[9], [17, 7]]\<rparr>"
    by (simp add: run_defs)
  have t: "tag_bytes sample_wire 2 Length4 = Some [44]"
    by (simp add: sample_wire_def sample_tag_def)
  from write_subblock_idle [OF v i d b _ _ t, of "[17, 7]"] v i d b t
  show ?thesis by (simp add: init_def uint32_le_def)
qed

subsection \<open>C9: the flag after a failed block\<close>

text \<open>
  C9. When the body of a block raises, the error leaves \<^verbatim>\<open>write_block\<close> with the
  target restored and \<^verbatim>\<open>self._in_block\<close> still set. Whatever statements the caller
  runs on the writer afterwards, the flag stays set, so that every later call of
  \<^verbatim>\<open>write_block\<close> raises \<^verbatim>\<open>UnexpectedBlockError\<close> and changes nothing.
\<close>

theorem failed_block_stays_in_block:
  assumes v: "valid w" and idle: "\<not> in_block w"
    and body: "run P cmds (open_block w) = Raised e w2"
    and w': "w' = w2\<lparr>data := data w\<rparr>"
  shows "write_block bt mn cv (run P cmds) w = Raised e w' \<and>
         in_block w' \<and>
         write_block bt2 mn2 cv2 body2 (state_of (run P later w')) =
           Raised (UnexpectedBlockError ''Already in a block'') (state_of (run P later w'))"
proof -
  from body_in_block [OF body]
  have ib: "in_block w2" and l2: "length (streams w) < length (streams w2)"
    by simp_all
  from v l2 w' have v': "valid w'" by (simp add: valid_def)
  from ib w' have ib': "in_block w'" by simp
  with v' have "in_block (state_of (run P later w'))" by (rule run_in_block)
  then have "write_block bt2 mn2 cv2 body2 (state_of (run P later w')) =
           Raised (UnexpectedBlockError ''Already in a block'') (state_of (run P later w'))"
    by (rule write_block_in_block)
  moreover from idle body w' have "write_block bt mn cv (run P cmds) w = Raised e w'"
    by (simp add: write_block_body_raised)
  ultimately show ?thesis using ib' by simp
qed

text \<open>A block whose body raises after one write; then a tagged write and a second
  block are attempted on the same writer.\<close>

theorem failed_block_stays_in_block_witness:
  "valid (init []) \<and> \<not> in_block (init []) \<and>
   run sample_wire [WriteByte 1 7, RaiseError] (open_block (init [])) =
     Raised BodyError \<lparr>data = 1, in_block = True, streams = [[], [17, 7]]\<rparr> \<and>
   write_block 7 1 2 (run sample_wire [WriteByte 1 7, RaiseError]) (init []) =
     Raised BodyError \<lparr>data = 0, in_block = True, streams = [[], [17, 7]]\<rparr> \<and>
   write_block 8 1 1 (run sample_wire [])
     (state_of (run sample_wire [WriteByte 2 5]
        \<lparr>data = 0, in_block = True, streams = [[], [17, 7]]\<rparr>)) =
     Raised (UnexpectedBlockError ''Already in a block'')
       \<lparr>data = 0, in_block = True, streams = [[33, 5], [17, 7]]\<rparr>"
proof -
  have v: "valid (init [])" and i: "\<not> in_block (init [])"
    by (simp_all add: init_def valid_def)
  have b: "run sample_wire [WriteByte 1 7, RaiseError] (open_block (init [])) =
     Raised BodyError \<lparr>data = 1, in_block = True, streams = [[], [17, 7]]\<rparr>"
    by (simp add: run_defs)
  have w': "\<lparr>data = 0, in_block = True, streams = [[], [17 :: byte, 7]]\<rparr> =
      \<lparr>data = 1, in_block = True, streams = [[], [17, 7]]\<rparr>\<lparr>data := data (init [])\<rparr>"
    by (simp add: init_def)
  have l: "state_of (run sample_wire [WriteByte 2 5]
        \<lparr>data = 0, in_block = True, streams = [[], [17, 7]]\<rparr>) =
       \<lparr>data = 0, in_block = True, streams = [[33, 5], [17, 7]]\<rparr>"
    by (simp add: run_defs)
  from failed_block_stays_in_block [OF v i b w', of 7 1 2 8 1 1 "run sample_wire []"
      "[WriteByte 2 5]"] v i b l
  show ?thesis by simp
qed

subsection \<open>C10: nothing is emitted when the body fails\<close>

text \<open>
  C10. When the body of a block or of a subblock raises, the error leaves the region
  and every stream that existed when the region was opened, the enclosing target among
  them, holds exactly the bytes it held then: no length, no header field, no tag and
  no part of the buffered payload has been written to it.
\<close>

theorem failed_region_emits_nothing:
  assumes v: "valid w"
  shows "(\<not> in_block w \<and> run P cmds (open_block w) = Raised e w2 \<longrightarrow>
            write_block bt mn cv (run P cmds) w = Raised e (w2\<lparr>data := data w\<rparr>) \<and>
            take (length (streams w)) (streams (w2\<lparr>data := data w\<rparr>)) = streams w \<and>
            streams (w2\<lparr>data := data w\<rparr>) ! data w = streams w ! data w) \<and>
         (run P cmds (open_subblock w) = Raised e w2 \<longrightarrow>
            write_subblock P i (run P cmds) w = Raised e (w2\<lparr>data := data w\<rparr>) \<and>
            take (length (streams w)) (streams (w2\<lparr>data := data w\<rparr>)) = streams w \<and>
            streams (w2\<lparr>data := data w\<rparr>) ! data w = streams w ! data w)"
proof -
  from v have d: "data w < length (streams w)" by (simp add: valid_def)
  have blk: "take (length (streams w)) (streams w2) = streams w \<and>
      streams w2 ! data w = streams w ! data w"
    if "run P cmds (open_block w) = Raised e w2"
  proof -
    from body_in_block(2) [OF that]
    have keep: "take (length (streams w)) (streams w2) = streams w" by simp
    from keep d have "streams w2 ! data w = streams w ! data w" by (rule opened_keeps_nth)
    with keep show ?thesis ..
  qed
  have sub: "take (length (streams w)) (streams w2) = streams w \<and>
      streams w2 ! data w = streams w ! data w"
    if "run P cmds (open_subblock w) = Raised e w2"
  proof -
    from body_in_subblock(2) [OF that]
    have keep: "take (length (streams w)) (streams w2) = streams w" by simp
    from keep d have "streams w2 ! data w = streams w ! data w" by (rule opened_keeps_nth)
    with keep show ?thesis ..
  qed
  from blk sub show ?thesis
    by (simp add: write_block_body_raised write_subblock_body_raised)
qed

text \<open>The caller's stream holds one byte; a block and a subblock are opened on it, and
  their bodies fail after a complete tagged write and a tag.\<close>

theorem failed_region_emits_nothing_witness:
  "valid (init [9]) \<and> \<not> in_block (init [9]) \<and>
   run sample_wire [WriteByte 1 7, WriteInt 3 (- 1)] (open_block (init [9])) =
     Raised EncodingError \<lparr>data = 1, in_block = True, streams = [[9], [17, 7, 52]]\<rparr> \<and>
   write_block 7 1 2 (run sample_wire [WriteByte 1 7, WriteInt 3 (- 1)]) (init [9]) =
     Raised EncodingError \<lparr>data = 0, in_block = True, streams = [[9], [17, 7, 52]]\<rparr> \<and>
   run sample_wire [WriteByte 1 7, WriteInt 3 (- 1)] (open_subblock (init [9])) =
     Raised EncodingError \<lparr>data = 1, in_block = False, streams = [[9], [17, 7, 52]]\<rparr> \<and>
   write_subblock sample_wire 2 (run sample_wire [WriteByte 1 7, WriteInt 3 (- 1)]) (init [9]) =
     Raised EncodingError \<lparr>data = 0, in_block = False, streams = [[9], [17, 7, 52]]\<rparr>"
proof -
  have v: "valid (init [9])" and i: "\<not> in_block (init [9])" and d: "data (init [9]) = 0"
    by (simp_all add: init_def valid_def)
  have b: "run sample_wire [WriteByte 1 7, WriteInt 3 (- 1)] (open_block (init [9])) =
     Raised EncodingError \<lparr>data = 1, in_block = True, streams = [[9], [17, 7, 52]]\<rparr>"
    by (simp add: run_defs)
  have s: "run sample_wire [WriteByte 1 7, WriteInt 3 (- 1)] (open_subblock (init [9])) =
     Raised EncodingError \<lparr>data = 1, in_block = False, streams = [[9], [17, 7, 52]]\<rparr>"
    by (simp add: run_defs)
  from failed_region_emits_nothing [OF v, where P = sample_wire
        and cmds = "[WriteByte 1 7, WriteInt 3 (- 1)]" and e = EncodingError and bt = 7
        and mn = 1 and cv = 2
        and ?w2.0 = "\<lparr>data = 1, in_block = True, streams = [[9], [17, 7, 52]]\<rparr>"]
    failed_region_emits_nothing [OF v, where P = sample_wire
        and cmds = "[WriteByte 1 7, WriteInt 3 (- 1)]" and e = EncodingError and i = 2
        and ?w2.0 = "\<lparr>data = 1, in_block = False, streams = [[9], [17, 7, 52]]\<rparr>"]
    v i d b s
  show ?thesis by simp
qed


end
